theory Spec2Isabelle
  imports Complex_Main "HOL-Library.Sublist" "HOL-Library.AList" "HOL-Library.Log_Nat"
begin

section \<open>WarrantyVault AI service: a shallow embedding of \<^verbatim>\<open>ai-service/app.py\<close>\<close>

text \<open>
  The service wraps three outside libraries: PaddleOCR, the Donut model of the
  \<^verbatim>\<open>transformers\<close> package, and \<^verbatim>\<open>pdf2image\<close>. Their objects (images, tensors, the
  processor and the model) are opaque to the program, so they are type variables here, and
  every call into a library is a parameter that returns either an exception or a value.
  Exceptions are values of the type \<open>exn\<close>; a Python function that may raise returns
  \<open>exn + 'a\<close>, with \<open>Inl\<close> for the exception. \<open>exn\<close> stands for the subclasses of
  Python's \<^verbatim>\<open>Exception\<close>, the ones an \<^verbatim>\<open>except Exception\<close> clause catches.
  Logging has no effect on any result and is left out.
\<close>

subsection \<open>Exceptions\<close>

datatype exn =
    PyException string
  | HTTPException nat string

definition bind_exn :: "exn + 'a \<Rightarrow> ('a \<Rightarrow> exn + 'b) \<Rightarrow> exn + 'b" where
  "bind_exn r k = (case r of Inl e \<Rightarrow> Inl e | Inr x \<Rightarrow> k x)"

subsection \<open>Python string operations\<close>

text \<open>
  Strings are lists of characters; the operations below follow \<^verbatim>\<open>str.join\<close>,
  \<^verbatim>\<open>str.replace\<close>, \<^verbatim>\<open>str.strip\<close> and \<^verbatim>\<open>re.sub(r"<.*?>", "", s, count=1)\<close> on ASCII text.
\<close>

definition newline :: char where
  "newline = CHR 0x0A"

fun str_join :: "string \<Rightarrow> string list \<Rightarrow> string" where
  "str_join sep [] = []"
| "str_join sep [x] = x"
| "str_join sep (x # y # ys) = x @ sep @ str_join sep (y # ys)"

text \<open>
  \<^verbatim>\<open>s.replace(old, new)\<close>: the occurrences of \<open>old\<close> are found from the left and do not
  overlap; with an empty \<open>old\<close>, Python puts \<open>new\<close> before every character and at the end.
\<close>

function str_replace :: "string \<Rightarrow> string \<Rightarrow> string \<Rightarrow> string" where
  "str_replace old new s =
     (if old = [] then new @ concat (map (\<lambda>c. c # new) s)
      else if s = [] then []
      else if prefix old s then new @ str_replace old new (drop (length old) s)
      else hd s # str_replace old new (tl s))"
  by pat_completeness auto
termination
  by (relation "measure (\<lambda>(old, new, s). length s)") auto

declare str_replace.simps [simp del]

text \<open>The ASCII characters for which \<^verbatim>\<open>str.isspace\<close> holds: codes 9 to 13, 28 to 31, and 32.\<close>

definition py_isspace :: "char \<Rightarrow> bool" where
  "py_isspace c =
     (let n = of_char c :: nat in (9 \<le> n \<and> n \<le> 13) \<or> (28 \<le> n \<and> n \<le> 32))"

definition str_strip :: "string \<Rightarrow> string" where
  "str_strip s = rev (dropWhile py_isspace (rev (dropWhile py_isspace s)))"

text \<open>
  \<^verbatim>\<open>re.sub(r"<.*?>", "", s, count=1)\<close> deletes the leftmost match only. A match starts at a
  \<open><\<close> and runs to the first \<open>>\<close> after it; \<open>.\<close> does not match a newline, so a \<open><\<close> whose
  line ends before any \<open>>\<close> starts no match. \<open>tag_rest cs\<close> is what follows the match, for
  the text \<open>cs\<close> after the \<open><\<close>.
\<close>

fun tag_rest :: "string \<Rightarrow> string option" where
  "tag_rest [] = None"
| "tag_rest (c # cs) =
     (if c = CHR ''>'' then Some cs
      else if c = newline then None
      else tag_rest cs)"

fun re_sub_first_tag :: "string \<Rightarrow> string" where
  "re_sub_first_tag [] = []"
| "re_sub_first_tag (c # cs) =
     (if c = CHR ''<'' then
        (case tag_rest cs of
           Some rest \<Rightarrow> rest
         | None \<Rightarrow> c # re_sub_first_tag cs)
      else c # re_sub_first_tag cs)"

text \<open>Python's \<^verbatim>\<open>sub in s\<close> for strings.\<close>

fun str_contains :: "string \<Rightarrow> string \<Rightarrow> bool" where
  "str_contains sub [] = (sub = [])"
| "str_contains sub (c # cs) = (prefix sub (c # cs) \<or> str_contains sub cs)"

text \<open>The segments of a text between newline characters (\<^verbatim>\<open>s.split("\n")\<close>).\<close>

fun newline_segments :: "string \<Rightarrow> string list" where
  "newline_segments [] = [[]]"
| "newline_segments (c # cs) =
     (if c = newline then [] # newline_segments cs
      else (case newline_segments cs of
              [] \<Rightarrow> [[c]]
            | seg # segs \<Rightarrow> (c # seg) # segs))"

subsection \<open>Floating-point numbers\<close>

text \<open>
  Confidence scores are Python floats, that is IEEE 754 doubles. A finite double is a
  rational number, so the values are of type \<open>rat\<close>, and every operation on floats rounds
  its exact result to the nearest double, a tie going to the double with the even
  significand: \<open>to_double\<close>. The doubles around \<open>x\<close> are the multiples of \<open>double_ulp x\<close>,
  which is \<open>2\<close> to the power \<open>e - 52\<close> for \<open>2 ^ e \<le> \<bar>x\<bar> < 2 ^ (e + 1)\<close>, and \<open>2\<close> to the
  power \<open>-1074\<close> below the normal range. Infinities, NaN and overflow are not modelled:
  they do not arise from finite confidences of at most \<open>2 ^ 53\<close> lines, whose sums,
  means and roundings stay far below the largest double.
\<close>

text \<open>\<open>round_half_even x\<close> is the integer nearest to \<open>x\<close>, a tie going to the even one.\<close>

definition round_half_even :: "rat \<Rightarrow> int" where
  "round_half_even x =
     (let f = \<lfloor>x\<rfloor>; d = x - of_int f
      in if d < 1 / 2 then f
         else if 1 / 2 < d then f + 1
         else if even f then f else f + 1)"

text \<open>For \<open>0 < x\<close>, \<open>ilog2 x\<close> is the integer \<open>e\<close> with \<open>2 ^ e \<le> x < 2 ^ (e + 1)\<close>.\<close>

definition ilog2 :: "rat \<Rightarrow> int" where
  "ilog2 x =
     (case quotient_of x of
        (p, q) \<Rightarrow> (let d = bitlen p - bitlen q in if 2 powi d \<le> x then d else d - 1))"

definition double_ulp :: "rat \<Rightarrow> rat" where
  "double_ulp x = 2 powi (max (ilog2 x) (- 1022) - 52)"

definition to_double :: "rat \<Rightarrow> rat" where
  "to_double x =
     (if x = 0 then 0
      else if 0 < x then of_int (round_half_even (x / double_ulp x)) * double_ulp x
      else - (of_int (round_half_even (- x / double_ulp (- x))) * double_ulp (- x)))"

text \<open>
  \<^verbatim>\<open>x / n\<close> for a float \<open>x\<close> and an integer \<open>n\<close>: the integer is converted to a double, and
  the quotient is rounded.
\<close>

definition float_div :: "rat \<Rightarrow> nat \<Rightarrow> rat" where
  "float_div x n = to_double (x / to_double (of_nat n))"

text \<open>
  \<^verbatim>\<open>round(x, n)\<close> for a float \<open>x\<close>: the exact value of \<open>x\<close> is rounded to \<open>n\<close> decimal places, a
  tie going to the even neighbour, and the result is the double nearest to that decimal.
\<close>

definition py_round :: "rat \<Rightarrow> nat \<Rightarrow> rat" where
  "py_round x n = to_double (of_int (round_half_even (x * 10 ^ n)) / 10 ^ n)"

text \<open>
  Python's \<^verbatim>\<open>sum\<close> is a parameter of the model, because its algorithm depends on the version
  of the interpreter: up to version 3.11 it adds the floats from left to right, which is
  \<open>float_sum_left\<close>, and from version 3.12 on it uses compensated summation.
\<close>

definition float_sum_left :: "rat list \<Rightarrow> rat" where
  "float_sum_left cs = foldl (\<lambda>a c. to_double (a + c)) 0 cs"

subsection \<open>Text recognition: \<^verbatim>\<open>extract_text_with_paddleocr\<close>\<close>

text \<open>
  \<^verbatim>\<open>paddle_ocr.ocr(img, cls=True)\<close> returns a list with one entry per input image; the entry
  is \<^verbatim>\<open>None\<close> when nothing was detected, else the list of detected lines, each a pair of
  the box (\<^verbatim>\<open>line[0]\<close>) and the pair of text and confidence (\<^verbatim>\<open>line[1]\<close>). The first
  parameter of \<open>extract_text_with_paddleocr\<close> is Python's \<^verbatim>\<open>sum\<close>.
\<close>

type_synonym box = "(rat \<times> rat) list"
type_synonym ocr_line = "box \<times> (string \<times> rat)"
type_synonym ocr_result = "ocr_line list option list"

record text_result =
  "text" :: string
  confidence :: rat

definition extract_text_with_paddleocr ::
  "(rat list \<Rightarrow> rat) \<Rightarrow> ('img \<Rightarrow> exn + ocr_result) \<Rightarrow> 'img \<Rightarrow> exn + text_result" where
  "extract_text_with_paddleocr float_sum paddle_ocr img =
     (case paddle_ocr img of
        Inl e \<Rightarrow> Inl e
      | Inr result \<Rightarrow>
          (case result of
             [] \<Rightarrow> Inr \<lparr>text = [], confidence = 0\<rparr>
           | None # _ \<Rightarrow> Inr \<lparr>text = [], confidence = 0\<rparr>
           | Some [] # _ \<Rightarrow> Inr \<lparr>text = [], confidence = 0\<rparr>
           | Some lines # _ \<Rightarrow>
               (let extracted_lines = map (\<lambda>line. fst (snd line)) lines;
                    confidence_scores = map (\<lambda>line. snd (snd line)) lines;
                    full_text = str_join [newline] extracted_lines;
                    avg_confidence =
                      (if confidence_scores \<noteq> []
                       then float_div (float_sum confidence_scores) (length confidence_scores)
                       else 0)
                in Inr \<lparr>text = full_text, confidence = py_round avg_confidence 4\<rparr>)))"

subsection \<open>The outside world\<close>

text \<open>
  The calls the program makes into its libraries. Constructing the processor and the model
  reads the network, the disk and the memory of the machine, so the outcome of these calls
  depends on a world state \<open>'w\<close> and may change it; a later attempt may end differently.
  The processor, the tokenizer, generation (greedy, \<^verbatim>\<open>num_beams=1\<close>) and decoding are
  functions of their arguments. \<^verbatim>\<open>model.generate\<close> also receives the token ids of the
  tokenizer and the length bound of the model configuration, which it reads from the two
  handles it is given here. \<open>exn_str\<close> is Python's \<^verbatim>\<open>str(e)\<close>.
\<close>

record ('img, 'proc, 'mdl, 'tensor, 'w) env =
  processor_from_pretrained :: "string \<Rightarrow> 'w \<Rightarrow> (exn + 'proc) \<times> 'w"
  model_from_pretrained :: "string \<Rightarrow> 'w \<Rightarrow> (exn + 'mdl) \<times> 'w"
  cuda_is_available :: bool
  model_to :: "'mdl \<Rightarrow> string \<Rightarrow> 'w \<Rightarrow> (exn + unit) \<times> 'w"
  processor_call :: "'proc \<Rightarrow> 'img \<Rightarrow> exn + 'tensor"
  tensor_to :: "'tensor \<Rightarrow> string \<Rightarrow> exn + 'tensor"
  tokenizer_call :: "'proc \<Rightarrow> string \<Rightarrow> exn + 'tensor"
  generate :: "'mdl \<Rightarrow> 'proc \<Rightarrow> 'tensor \<Rightarrow> 'tensor \<Rightarrow> exn + 'tensor"
  batch_decode :: "'proc \<Rightarrow> 'tensor \<Rightarrow> exn + string list"
  eos_token :: "'proc \<Rightarrow> string"
  pad_token :: "'proc \<Rightarrow> string"
  convert_from_bytes :: "string \<Rightarrow> nat \<Rightarrow> nat \<Rightarrow> nat \<Rightarrow> exn + 'img list"
  image_open :: "string \<Rightarrow> exn + 'img"
  exn_str :: "exn \<Rightarrow> string"

text \<open>The module's globals \<^verbatim>\<open>donut_processor\<close> and \<^verbatim>\<open>donut_model\<close>, and the world.\<close>

record ('proc, 'mdl, 'w) state =
  donut_processor :: "'proc option"
  donut_model :: "'mdl option"
  world :: 'w

text \<open>The uploaded file: its name, its declared content type, and what \<^verbatim>\<open>file.read()\<close> gives.\<close>

record upload_file =
  filename :: string
  content_type :: string
  file_bytes :: string

subsection \<open>The lazily loaded model: \<^verbatim>\<open>load_donut_model\<close>\<close>

definition donut_name :: string where
  "donut_name = ''naver-clova-ix/donut-base-finetuned-docvqa''"

text \<open>
  The globals are assigned one by one inside the \<^verbatim>\<open>try\<close> block, so an exception leaves
  the assignments made before it in place. The handler logs and raises again. The final
  \<^verbatim>\<open>return donut_processor, donut_model\<close> reads the globals, which are both set on every
  path that reaches it.
\<close>

definition load_donut_model ::
  "('img, 'proc, 'mdl, 'tensor, 'w) env \<Rightarrow> ('proc, 'mdl, 'w) state
     \<Rightarrow> (exn + 'proc \<times> 'mdl) \<times> ('proc, 'mdl, 'w) state" where
  "load_donut_model E s =
     (if donut_processor s = None \<or> donut_model s = None then
        (case processor_from_pretrained E donut_name (world s) of
           (Inl e, w1) \<Rightarrow> (Inl e, s\<lparr>world := w1\<rparr>)
         | (Inr p, w1) \<Rightarrow>
             (case model_from_pretrained E donut_name w1 of
                (Inl e, w2) \<Rightarrow> (Inl e, s\<lparr>donut_processor := Some p, world := w2\<rparr>)
              | (Inr m, w2) \<Rightarrow>
                  (if cuda_is_available E then
                     (case model_to E m ''cuda'' w2 of
                        (Inl e, w3) \<Rightarrow>
                          (Inl e, s\<lparr>donut_processor := Some p, donut_model := Some m,
                                    world := w3\<rparr>)
                      | (Inr _, w3) \<Rightarrow>
                          (Inr (p, m), s\<lparr>donut_processor := Some p, donut_model := Some m,
                                        world := w3\<rparr>))
                   else
                     (Inr (p, m), s\<lparr>donut_processor := Some p, donut_model := Some m,
                                   world := w2\<rparr>))))
      else (Inr (the (donut_processor s), the (donut_model s)), s))"

subsection \<open>One field: \<^verbatim>\<open>extract_structured_with_donut\<close>\<close>

definition prompt_map :: "(string \<times> string) list" where
  "prompt_map =
     [(''product_name'', ''What is the product name?''),
      (''order_id'', ''What is the order ID?''),
      (''invoice_number'', ''What is the invoice number?''),
      (''total_amount'', ''What is the total amount?''),
      (''purchase_date'', ''What is the purchase date?''),
      (''retailer'', ''What is the retailer name?'')]"

text \<open>\<^verbatim>\<open>prompt_map.get(target_field, f"What is the {target_field}?")\<close>\<close>

definition prompt_for :: "string \<Rightarrow> string" where
  "prompt_for target_field =
     (case map_of prompt_map target_field of
        Some question \<Rightarrow> question
      | None \<Rightarrow> ''What is the '' @ target_field @ ''?'')"

definition to_cuda ::
  "('img, 'proc, 'mdl, 'tensor, 'w) env \<Rightarrow> 'tensor \<Rightarrow> exn + 'tensor" where
  "to_cuda E t = (if cuda_is_available E then tensor_to E t ''cuda'' else Inr t)"

text \<open>Lines 152 to 159: the decoder seed of a field, tokenized and moved to the device.\<close>

definition decoder_input_ids ::
  "('img, 'proc, 'mdl, 'tensor, 'w) env \<Rightarrow> 'proc \<Rightarrow> string \<Rightarrow> exn + 'tensor" where
  "decoder_input_ids E processor target_field =
     bind_exn
       (tokenizer_call E processor
          (''<s_docvqa><s_question>'' @ prompt_for target_field @ ''</s_question><s_answer>''))
       (to_cuda E)"

text \<open>Lines 176 and 177: what is done to the decoded sequence.\<close>

definition clean_sequence :: "string \<Rightarrow> string \<Rightarrow> string \<Rightarrow> string" where
  "clean_sequence eos pad sequence =
     str_strip (re_sub_first_tag (str_replace pad [] (str_replace eos [] sequence)))"

text \<open>
  The body of the \<^verbatim>\<open>try\<close> block after the model is there (lines 133 to 179).
  \<^verbatim>\<open>batch_decode(...)[0]\<close> raises \<^verbatim>\<open>IndexError\<close> on an empty list.
\<close>

definition donut_answer ::
  "('img, 'proc, 'mdl, 'tensor, 'w) env \<Rightarrow> 'proc \<Rightarrow> 'mdl \<Rightarrow> 'img \<Rightarrow> string \<Rightarrow> exn + string" where
  "donut_answer E processor model img target_field =
     bind_exn (processor_call E processor img) (\<lambda>t.
     bind_exn (to_cuda E t) (\<lambda>pixel_values.
     bind_exn (decoder_input_ids E processor target_field) (\<lambda>ids.
     bind_exn (generate E model processor pixel_values ids) (\<lambda>outputs.
     bind_exn (batch_decode E processor outputs) (\<lambda>decoded.
       (case decoded of
          [] \<Rightarrow> Inl (PyException ''IndexError'')
        | sequence # _ \<Rightarrow>
            Inr (clean_sequence (eos_token E processor) (pad_token E processor) sequence)))))))"

text \<open>The whole \<^verbatim>\<open>try\<close> block: the model is loaded first, inside it.\<close>

definition extract_structured_with_donut_try ::
  "('img, 'proc, 'mdl, 'tensor, 'w) env \<Rightarrow> 'img \<Rightarrow> string \<Rightarrow> ('proc, 'mdl, 'w) state
     \<Rightarrow> (exn + string) \<times> ('proc, 'mdl, 'w) state" where
  "extract_structured_with_donut_try E img target_field s =
     (case load_donut_model E s of
        (Inl e, s') \<Rightarrow> (Inl e, s')
      | (Inr (processor, model), s') \<Rightarrow> (donut_answer E processor model img target_field, s'))"

text \<open>The handler \<^verbatim>\<open>except Exception\<close> logs and returns the empty string.\<close>

definition extract_structured_with_donut ::
  "('img, 'proc, 'mdl, 'tensor, 'w) env \<Rightarrow> 'img \<Rightarrow> string \<Rightarrow> ('proc, 'mdl, 'w) state
     \<Rightarrow> (exn + string) \<times> ('proc, 'mdl, 'w) state" where
  "extract_structured_with_donut E img target_field s =
     (case extract_structured_with_donut_try E img target_field s of
        (Inl e, s') \<Rightarrow> (Inr [], s')
      | (Inr sequence, s') \<Rightarrow> (Inr sequence, s'))"

subsection \<open>All fields: \<^verbatim>\<open>extract_all_structured_fields\<close>\<close>

definition fields :: "string list" where
  "fields =
     [''product_name'', ''order_id'', ''invoice_number'', ''total_amount'', ''purchase_date'',
      ''retailer'']"

text \<open>
  The dictionary \<^verbatim>\<open>results\<close> is an association list in insertion order;
  \<^verbatim>\<open>results[field] = v\<close> is \<open>AList.update\<close>, which replaces the value of a key that is there
  and appends a new key. The loop body has its own \<^verbatim>\<open>try\<close>: an exception of the call
  stores the empty string.
\<close>

fun extract_fields_loop ::
  "('img, 'proc, 'mdl, 'tensor, 'w) env \<Rightarrow> 'img \<Rightarrow> string list \<Rightarrow> (string \<times> string) list
     \<Rightarrow> ('proc, 'mdl, 'w) state \<Rightarrow> (string \<times> string) list \<times> ('proc, 'mdl, 'w) state" where
  "extract_fields_loop E img [] results s = (results, s)"
| "extract_fields_loop E img (field # rest) results s =
     (case extract_structured_with_donut E img field s of
        (Inr v, s') \<Rightarrow>
          extract_fields_loop E img rest (AList.update field (if v \<noteq> [] then v else []) results) s'
      | (Inl e, s') \<Rightarrow>
          extract_fields_loop E img rest (AList.update field [] results) s')"

definition extract_all_structured_fields ::
  "('img, 'proc, 'mdl, 'tensor, 'w) env \<Rightarrow> 'img \<Rightarrow> ('proc, 'mdl, 'w) state
     \<Rightarrow> (exn + (string \<times> string) list) \<times> ('proc, 'mdl, 'w) state" where
  "extract_all_structured_fields E img s =
     (case extract_fields_loop E img fields [] s of (results, s') \<Rightarrow> (Inr results, s'))"

subsection \<open>The endpoint \<^verbatim>\<open>/ai-structured-extract\<close>\<close>

text \<open>\<^verbatim>\<open>images[0] if images else None\<close>; an exception of the conversion is logged and raised again.\<close>

definition convert_pdf_to_image ::
  "('img, 'proc, 'mdl, 'tensor, 'w) env \<Rightarrow> string \<Rightarrow> exn + 'img option" where
  "convert_pdf_to_image E pdf_bytes =
     (case convert_from_bytes E pdf_bytes 300 1 1 of
        Inl e \<Rightarrow> Inl e
      | Inr images \<Rightarrow> Inr (case images of [] \<Rightarrow> None | page # _ \<Rightarrow> Some page))"

text \<open>
  Lines 284 to 287: a file declared as PDF goes through the conversion, any other file is
  opened as an image. \<^verbatim>\<open>Image.open\<close> returns an image or raises.
\<close>

definition file_to_image ::
  "('img, 'proc, 'mdl, 'tensor, 'w) env \<Rightarrow> upload_file \<Rightarrow> exn + 'img option" where
  "file_to_image E file =
     (if content_type file = ''application/pdf''
      then convert_pdf_to_image E (file_bytes file)
      else bind_exn (image_open E (file_bytes file)) (\<lambda>i. Inr (Some i)))"

text \<open>
  The endpoint's \<^verbatim>\<open>try\<close> block, and its handler, which turns every exception, the
  \<^verbatim>\<open>HTTPException\<close> with status 400 among them, into an \<^verbatim>\<open>HTTPException\<close> with status 500.
\<close>

definition ai_structured_extract_try ::
  "('img, 'proc, 'mdl, 'tensor, 'w) env \<Rightarrow> upload_file \<Rightarrow> ('proc, 'mdl, 'w) state
     \<Rightarrow> (exn + (string \<times> string) list) \<times> ('proc, 'mdl, 'w) state" where
  "ai_structured_extract_try E file s =
     (case file_to_image E file of
        Inl e \<Rightarrow> (Inl e, s)
      | Inr None \<Rightarrow> (Inl (HTTPException 400 ''Failed to process file''), s)
      | Inr (Some img) \<Rightarrow> extract_all_structured_fields E img s)"

definition ai_structured_extract ::
  "('img, 'proc, 'mdl, 'tensor, 'w) env \<Rightarrow> upload_file \<Rightarrow> ('proc, 'mdl, 'w) state
     \<Rightarrow> (exn + (string \<times> string) list) \<times> ('proc, 'mdl, 'w) state" where
  "ai_structured_extract E file s =
     (case ai_structured_extract_try E file s of
        (Inl e, s') \<Rightarrow> (Inl (HTTPException 500 (exn_str E e)), s')
      | (Inr structured_data, s') \<Rightarrow> (Inr structured_data, s'))"

section \<open>Concrete inputs\<close>

text \<open>
  The inputs at which the properties below are evaluated. Images, tensors, the processor
  and the model are numbers here, and the world state counts the calls that construct
  the processor or the model.
\<close>

definition ocr_two_lines :: "nat \<Rightarrow> exn + ocr_result" where
  "ocr_two_lines i = Inr [Some [([], (''INVOICE'', 31 / 32)), ([], (''TOTAL'', 15 / 16))]]"

text \<open>
  A world in which everything works: the processor is handle 1, the model is handle 2,
  there is no GPU, a tensor is the text it stands for, every PDF has the two pages 7 and 8,
  every image file holds the image 7, the model answers every question with 42, and the
  text of an exception is its message, for an \<^verbatim>\<open>HTTPException\<close> its detail. The decoded sequence is the decoder seed followed by the answer and
  the closing markers, which is what \<^verbatim>\<open>batch_decode\<close> gives for the sequences that
  \<^verbatim>\<open>generate\<close> returns.
\<close>

definition demo_env :: "(nat, nat, nat, string, nat) env" where
  "demo_env =
     \<lparr>processor_from_pretrained = (\<lambda>name w. (Inr 1, Suc w)),
      model_from_pretrained = (\<lambda>name w. (Inr 2, Suc w)),
      cuda_is_available = False,
      model_to = (\<lambda>m device w. (Inr (), w)),
      processor_call = (\<lambda>p i. Inr ''pixels''),
      tensor_to = (\<lambda>t device. Inr t),
      tokenizer_call = (\<lambda>p s. Inr s),
      generate = (\<lambda>m p pixel_values ids. Inr (ids @ '' 42</s_answer></s>'')),
      batch_decode = (\<lambda>p outputs. Inr [outputs]),
      eos_token = (\<lambda>p. ''</s>''),
      pad_token = (\<lambda>p. ''<pad>''),
      convert_from_bytes =
        (\<lambda>b dpi first_page last_page.
           Inr (take (Suc last_page - first_page) (drop (first_page - 1) [7, 8]))),
      image_open = (\<lambda>b. Inr 7),
      exn_str = (\<lambda>e. case e of PyException msg \<Rightarrow> msg | HTTPException code detail \<Rightarrow> detail)\<rparr>"

text \<open>The state of a fresh process: nothing loaded, no construction call made.\<close>

definition fresh :: "(nat, nat, nat) state" where
  "fresh = \<lparr>donut_processor = None, donut_model = None, world = 0\<rparr>"

text \<open>Generation that raises on the seed of \<^verbatim>\<open>order_id\<close> and nowhere else.\<close>

definition generate_failing_order_id :: "nat \<Rightarrow> nat \<Rightarrow> string \<Rightarrow> string \<Rightarrow> exn + string" where
  "generate_failing_order_id m p pixel_values ids =
     (if ids = ''<s_docvqa><s_question>What is the order ID?</s_question><s_answer>''
      then Inl (PyException ''generation failed'')
      else generate demo_env m p pixel_values ids)"

text \<open>The pretrained artifact cannot be fetched: constructing the processor raises.\<close>

definition offline_env :: "(nat, nat, nat, string, nat) env" where
  "offline_env =
     demo_env\<lparr>processor_from_pretrained :=
                (\<lambda>name w. (Inl (PyException ''artifact unavailable''), Suc w))\<rparr>"

text \<open>A GPU is there, and moving the model to it raises.\<close>

definition gpu_oom_env :: "(nat, nat, nat, string, nat) env" where
  "gpu_oom_env =
     demo_env\<lparr>cuda_is_available := True,
              model_to := (\<lambda>m device w. (Inl (PyException ''CUDA out of memory''), Suc w))\<rparr>"

text \<open>A PDF that is not one, and a PDF without pages.\<close>

definition bad_pdf_env :: "(nat, nat, nat, string, nat) env" where
  "bad_pdf_env =
     demo_env\<lparr>convert_from_bytes :=
                (\<lambda>b dpi first_page last_page. Inl (PyException ''Unable to get page count''))\<rparr>"

definition empty_pdf_env :: "(nat, nat, nat, string, nat) env" where
  "empty_pdf_env = demo_env\<lparr>convert_from_bytes := (\<lambda>b dpi first_page last_page. Inr [])\<rparr>"

definition png_file :: upload_file where
  "png_file = \<lparr>filename = ''receipt.png'', content_type = ''image/png'', file_bytes = ''PNG''\<rparr>"

definition pdf_file :: upload_file where
  "pdf_file =
     \<lparr>filename = ''invoice.pdf'', content_type = ''application/pdf'', file_bytes = ''%PDF''\<rparr>"

text \<open>What the model of \<open>demo_env\<close> decodes to for \<^verbatim>\<open>order_id\<close>, and what is returned for it.\<close>

definition decoded_order_id :: string where
  "decoded_order_id =
     ''<s_docvqa><s_question>What is the order ID?</s_question><s_answer> 42</s_answer></s>''"

definition returned_order_id :: string where
  "returned_order_id = ''<s_question>What is the order ID?</s_question><s_answer> 42</s_answer>''"

definition all_empty :: "(string \<times> string) list" where
  "all_empty =
     [(''product_name'', []), (''order_id'', []), (''invoice_number'', []),
      (''total_amount'', []), (''purchase_date'', []), (''retailer'', [])]"

section \<open>Properties\<close>

subsection \<open>Text recognition\<close>

text \<open>
  C4. When the OCR backend reports no line for the page (an empty result list, \<^verbatim>\<open>None\<close> for
  the page, or an empty line list), \<^verbatim>\<open>extract_text_with_paddleocr\<close> raises nothing and
  returns the empty text with confidence \<open>0\<close>. Whenever the backend returns at all, the
  call returns a text and a confidence: the mean is never taken over no lines.
\<close>

theorem empty_ocr_result:
  assumes "paddle_ocr img = Inr result"
  shows "(result = [] \<or> (\<exists>rest. result = None # rest) \<or> (\<exists>rest. result = Some [] # rest)
            \<longrightarrow> extract_text_with_paddleocr float_sum paddle_ocr img
                  = Inr \<lparr>text = [], confidence = 0\<rparr>)
     \<and> (\<exists>r. extract_text_with_paddleocr float_sum paddle_ocr img = Inr r)"
  using assms
  by (auto simp: extract_text_with_paddleocr_def Let_def split: list.splits option.splits)

theorem empty_ocr_result_witness:
  "extract_text_with_paddleocr float_sum_left (\<lambda>i::nat. Inr [None]) 0
     = Inr \<lparr>text = [], confidence = 0\<rparr>"
  using empty_ocr_result [of "\<lambda>i::nat. Inr [None]" 0 "[None]" float_sum_left] by simp

subsection \<open>Rounding to a double\<close>

lemma round_half_even_near: "\<bar>of_int (round_half_even x) - x\<bar> \<le> 1 / 2"
proof -
  have "of_int \<lfloor>x\<rfloor> \<le> x" "x < of_int \<lfloor>x\<rfloor> + 1" by linarith+
  then show ?thesis
    unfolding round_half_even_def Let_def by (simp add: abs_le_iff)
qed

lemma round_half_even_of_int: "round_half_even (of_int k) = k"
  by (simp add: round_half_even_def)

lemma round_half_even_range:
  assumes "of_int a \<le> x" and "x \<le> of_int b"
  shows "a \<le> round_half_even x \<and> round_half_even x \<le> b"
proof -
  have fl: "a \<le> \<lfloor>x\<rfloor>" "\<lfloor>x\<rfloor> \<le> b" using assms by (simp_all add: le_floor_iff floor_le_iff) 
  show ?thesis
  proof (cases "\<lfloor>x\<rfloor> = b")
    case True
    have "of_int \<lfloor>x\<rfloor> \<le> x" by simp
    then have "x = of_int b" using assms(2) True by simp
    then show ?thesis using assms fl by (simp add: round_half_even_of_int)
  next
    case False
    then have "\<lfloor>x\<rfloor> + 1 \<le> b" using fl by simp
    then show ?thesis using fl by (simp add: round_half_even_def Let_def)
  qed
qed

lemma ilog2_bracket:
  assumes "0 < x"
  shows "2 powi ilog2 x \<le> x \<and> x < 2 powi (ilog2 x + 1)"
proof -
  obtain p q where pq: "quotient_of x = (p, q)" by (cases "quotient_of x")
  have q: "0 < q" using pq by (rule quotient_of_denom_pos)
  have x: "x = of_int p / of_int q" using pq by (rule quotient_of_div)
  have p: "0 < p" using assms q unfolding x by (simp add: zero_less_divide_iff)
  let ?bp = "bitlen p" and ?bq = "bitlen q"
  have bp1: "1 \<le> ?bp" and bq1: "1 \<le> ?bq" using p q by (simp_all add: bitlen_alt_def)
  from bitlen_bounds [OF p] have "2 ^ nat (?bp - 1) \<le> p" "p < 2 ^ nat ?bp" by simp_all
  then have "(of_int (2 ^ nat (?bp - 1)) :: rat) \<le> of_int p" "(of_int p :: rat) < of_int (2 ^ nat ?bp)"
    by (simp_all only: of_int_le_iff of_int_less_iff)
  then have P: "2 powi (?bp - 1) \<le> (of_int p :: rat)" "(of_int p :: rat) < 2 powi ?bp"
    using bp1 by (simp_all add: power_int_def)
  from bitlen_bounds [OF q] have "2 ^ nat (?bq - 1) \<le> q" "q < 2 ^ nat ?bq" by simp_all
  then have "(of_int (2 ^ nat (?bq - 1)) :: rat) \<le> of_int q" "(of_int q :: rat) < of_int (2 ^ nat ?bq)"
    by (simp_all only: of_int_le_iff of_int_less_iff)
  then have Q: "2 powi (?bq - 1) \<le> (of_int q :: rat)" "(of_int q :: rat) < 2 powi ?bq"
    using bq1 by (simp_all add: power_int_def)
  have Qpos: "(0::rat) < of_int q" using q by simp
  have Ppos: "(0::rat) < of_int p" using p by simp
  let ?d = "?bp - ?bq"
  have upper: "x < 2 powi (?d + 1)"
  proof -
    have "x < 2 powi ?bp / of_int q" unfolding x using P(2) Qpos by (simp add: divide_strict_right_mono)
    also have "\<dots> \<le> 2 powi ?bp / 2 powi (?bq - 1)"
      using Q(1) Qpos by (intro divide_left_mono) (simp_all add: zero_less_mult_iff)
    also have "\<dots> = 2 powi (?bp - (?bq - 1))" by (simp add: power_int_diff)
    finally show ?thesis by (simp add: algebra_simps)
  qed
  have lower: "2 powi (?d - 1) < x"
  proof -
    have "2 powi (?d - 1) = 2 powi ((?bp - 1) - ?bq)" by (simp add: algebra_simps)
    also have "\<dots> = 2 powi (?bp - 1) / (2 powi ?bq :: rat)" by (simp add: power_int_diff)
    also have "\<dots> < 2 powi (?bp - 1) / of_int q"
      using Q(2) Qpos by (intro divide_strict_left_mono) (simp_all add: zero_less_mult_iff)
    also have "\<dots> \<le> x" unfolding x using P(1) Qpos by (simp add: divide_right_mono)
    finally show ?thesis .
  qed
  show ?thesis
  proof (cases "2 powi ?d \<le> x")
    case True
    then have "ilog2 x = ?d" by (simp add: ilog2_def pq Let_def)
    then show ?thesis using True upper by simp
  next
    case False
    then have "ilog2 x = ?d - 1" by (simp add: ilog2_def pq Let_def)
    then show ?thesis using False lower by simp
  qed
qed



lemma ilog2_mono:
  assumes "0 < x" and "x \<le> y"
  shows "ilog2 x \<le> ilog2 y"
proof (rule ccontr)
  assume "\<not> ilog2 x \<le> ilog2 y"
  then have "ilog2 y + 1 \<le> ilog2 x" by simp
  then have "(2::rat) powi (ilog2 y + 1) \<le> 2 powi ilog2 x"
    by (intro power_int_increasing) simp_all
  moreover have "2 powi ilog2 x \<le> x" using ilog2_bracket [OF assms(1)] by simp
  moreover have "y < 2 powi (ilog2 y + 1)" using ilog2_bracket [of y] assms by simp
  ultimately show False using assms(2) by simp
qed

lemma double_ulp_pos: "0 < double_ulp x"
  by (simp add: double_ulp_def)

lemma double_ulp_scale: "double_ulp x * 2 ^ 53 = 2 powi (max (ilog2 x) (- 1022) + 1)"
proof -
  let ?e = "max (ilog2 x) (- 1022)"
  have "double_ulp x * 2 ^ 53 = 2 powi (?e - 52) * 2 powi 53"
    by (simp add: double_ulp_def)
  also have "\<dots> = 2 powi ((?e - 52) + 53)"
    by (rule power_int_add [symmetric]) simp
  also have "(?e - 52) + 53 = ?e + 1" by simp
  finally show ?thesis .
qed

lemma double_ulp_scale': "double_ulp x * 2 ^ 52 = 2 powi (max (ilog2 x) (- 1022))"
proof -
  let ?e = "max (ilog2 x) (- 1022)"
  have "double_ulp x * 2 ^ 52 = 2 powi (?e - 52) * 2 powi 52"
    by (simp add: double_ulp_def)
  also have "\<dots> = 2 powi ((?e - 52) + 52)"
    by (rule power_int_add [symmetric]) simp
  also have "(?e - 52) + 52 = ?e" by simp
  finally show ?thesis .
qed

lemma scaled_upper:
  assumes "0 < x"
  shows "x / double_ulp x < 2 ^ 53"
proof -
  have "x < 2 powi (ilog2 x + 1)" using ilog2_bracket [OF assms] by simp
  also have "\<dots> \<le> 2 powi (max (ilog2 x) (- 1022) + 1)"
    by (intro power_int_increasing) simp_all
  also have "\<dots> = double_ulp x * 2 ^ 53" by (simp only: double_ulp_scale)
  finally show ?thesis using double_ulp_pos [of x] by (simp add: pos_divide_less_eq mult.commute)
qed

lemma scaled_lower:
  assumes "0 < x" and "- 1022 \<le> ilog2 x"
  shows "2 ^ 52 \<le> x / double_ulp x"
proof -
  have "max (ilog2 x) (- 1022) = ilog2 x" using assms(2) by simp
  then have "double_ulp x * 2 ^ 52 = 2 powi ilog2 x"
    using double_ulp_scale' [of x] by (simp only:)
  also have "\<dots> \<le> x" using ilog2_bracket [OF assms(1)] by simp
  finally show ?thesis using double_ulp_pos [of x] by (simp add: pos_le_divide_eq mult.commute)
qed

lemma round_half_even_mono:
  assumes "x \<le> y"
  shows "round_half_even x \<le> round_half_even y"
proof (cases "\<lfloor>x\<rfloor> = \<lfloor>y\<rfloor>")
  case True
  then show ?thesis using assms by (auto simp: round_half_even_def Let_def)
next
  case False
  then have "\<lfloor>x\<rfloor> + 1 \<le> \<lfloor>y\<rfloor>" using floor_mono [OF assms] by simp
  moreover have "round_half_even x \<le> \<lfloor>x\<rfloor> + 1" by (simp add: round_half_even_def Let_def)
  moreover have "\<lfloor>y\<rfloor> \<le> round_half_even y" by (simp add: round_half_even_def Let_def)
  ultimately show ?thesis by simp
qed

lemma to_double_pos:
  "0 < x \<Longrightarrow> to_double x = of_int (round_half_even (x / double_ulp x)) * double_ulp x"
  by (simp add: to_double_def)

lemma to_double_nonneg:
  assumes "0 \<le> x"
  shows "0 \<le> to_double x"
proof (cases "x = 0")
  case True
  then show ?thesis by (simp add: to_double_def)
next
  case False
  then have x: "0 < x" using assms by simp
  have "of_int 0 \<le> x / double_ulp x" "x / double_ulp x \<le> of_int (2 ^ 53)"
    using x scaled_upper [OF x] double_ulp_pos [of x] by simp_all
  then have "0 \<le> round_half_even (x / double_ulp x)"
    using round_half_even_range by blast
  then show ?thesis using x double_ulp_pos [of x] by (simp add: to_double_pos)
qed

lemma to_double_mono:
  assumes "0 \<le> x" and "x \<le> y"
  shows "to_double x \<le> to_double y"
proof (cases "x = 0")
  case True
  then show ?thesis using to_double_nonneg [of y] assms by (simp add: to_double_def)
next
  case False
  then have x: "0 < x" using assms by simp
  then have y: "0 < y" using assms by simp
  let ?ex = "max (ilog2 x) (- 1022)" and ?ey = "max (ilog2 y) (- 1022)"
  have le: "?ex \<le> ?ey" using ilog2_mono [OF x assms(2)] by simp
  show ?thesis
  proof (cases "?ex = ?ey")
    case True
    then have u: "double_ulp x = double_ulp y" by (simp add: double_ulp_def)
    have "x / double_ulp y \<le> y / double_ulp y"
      using assms(2) double_ulp_pos [of y] by (simp add: divide_right_mono)
    then have "round_half_even (x / double_ulp y) \<le> round_half_even (y / double_ulp y)"
      by (rule round_half_even_mono)
    then show ?thesis
      using x y double_ulp_pos [of y] by (simp add: to_double_pos u)
  next
    case False
    then have lt: "?ex + 1 \<le> ?ey" using le by simp
    then have unclamped: "- 1022 \<le> ilog2 y" "?ey = ilog2 y" by (simp_all add: max_def split: if_splits)
    have "of_int 0 \<le> x / double_ulp x" "x / double_ulp x \<le> of_int (2 ^ 53)"
      using x scaled_upper [OF x] double_ulp_pos [of x] by simp_all
    then have "round_half_even (x / double_ulp x) \<le> 2 ^ 53"
      using round_half_even_range by blast
    then have "(of_int (round_half_even (x / double_ulp x)) :: rat) \<le> of_int (2 ^ 53)"
      by (simp only: of_int_le_iff)
    then have "to_double x \<le> 2 ^ 53 * double_ulp x"
      using x double_ulp_pos [of x] by (simp add: to_double_pos)
    also have "\<dots> = 2 powi (?ex + 1)" using double_ulp_scale [of x] by (simp add: mult.commute)
    also have "\<dots> \<le> 2 powi ?ey" using lt by (intro power_int_increasing) simp_all
    also have "\<dots> = 2 ^ 52 * double_ulp y" using double_ulp_scale' [of y] by (simp add: mult.commute)
    also have "\<dots> \<le> to_double y"
    proof -
      have "of_int (2 ^ 52) \<le> y / double_ulp y" "y / double_ulp y \<le> of_int (2 ^ 53)"
        using scaled_lower [OF y unclamped(1)] scaled_upper [OF y] by simp_all
      then have "2 ^ 52 \<le> round_half_even (y / double_ulp y)"
        using round_half_even_range by blast
      then have "(of_int (2 ^ 52) :: rat) \<le> of_int (round_half_even (y / double_ulp y))"
        by (simp only: of_int_le_iff)
      then show ?thesis using y double_ulp_pos [of y] by (simp add: to_double_pos)
    qed
    finally show ?thesis .
  qed
qed

lemma to_double_near:
  assumes "0 \<le> x" and "x \<le> 1"
  shows "\<bar>to_double x - x\<bar> \<le> 1 / 2 ^ 53"
proof (cases "x = 0")
  case True
  then show ?thesis by (simp add: to_double_def)
next
  case False
  then have x: "0 < x" using assms by simp
  let ?u = "double_ulp x"
  have u: "0 < ?u" by (rule double_ulp_pos)
  have "ilog2 x \<le> 0"
  proof (rule ccontr)
    assume "\<not> ilog2 x \<le> 0"
    then have "1 \<le> ilog2 x" by simp
    then have "(2::rat) powi 1 \<le> 2 powi ilog2 x" by (intro power_int_increasing) simp_all
    then show False using ilog2_bracket [OF x] assms(2) by simp
  qed
  then have "max (ilog2 x) (- 1022) - 52 \<le> - 52" by simp
  then have "?u \<le> 2 powi (- 52)"
    unfolding double_ulp_def by (intro power_int_increasing) simp_all
  then have small: "?u / 2 \<le> 1 / 2 ^ 53" by (simp add: power_int_minus field_simps)
  have "\<bar>of_int (round_half_even (x / ?u)) - x / ?u\<bar> \<le> 1 / 2"
    by (rule round_half_even_near)
  then have "\<bar>of_int (round_half_even (x / ?u)) - x / ?u\<bar> * ?u \<le> 1 / 2 * ?u"
    using u by (intro mult_right_mono) simp_all
  moreover have "\<bar>of_int (round_half_even (x / ?u)) - x / ?u\<bar> * ?u
      = \<bar>of_int (round_half_even (x / ?u)) * ?u - x\<bar>"
  proof -
    have eq: "(of_int (round_half_even (x / ?u)) - x / ?u) * ?u
        = of_int (round_half_even (x / ?u)) * ?u - x"
      using u by (simp add: left_diff_distrib)
    have "\<bar>(of_int (round_half_even (x / ?u)) - x / ?u) * ?u\<bar>
        = \<bar>of_int (round_half_even (x / ?u)) - x / ?u\<bar> * \<bar>?u\<bar>"
      by (rule abs_mult)
    also have "\<bar>?u\<bar> = ?u" using u by simp
    finally show ?thesis unfolding eq by simp
  qed
  ultimately have "\<bar>to_double x - x\<bar> \<le> ?u / 2" using x by (simp add: to_double_pos)
  then show ?thesis using small by simp
qed

lemma to_double_0: "to_double 0 = 0"
  by (simp add: to_double_def)

lemma to_double_1: "to_double 1 = 1"
  by code_simp


lemma to_double_unit:
  assumes "0 \<le> x" and "x \<le> 1"
  shows "0 \<le> to_double x \<and> to_double x \<le> 1"
  using to_double_nonneg [OF assms(1)] to_double_mono [OF assms] by (simp add: to_double_1)

lemma decimal_unit:
  assumes "0 \<le> x" and "x \<le> 1"
  shows "0 \<le> of_int (round_half_even (x * 10 ^ 4)) / (10 ^ 4 :: rat)
       \<and> of_int (round_half_even (x * 10 ^ 4)) / (10 ^ 4 :: rat) \<le> 1"
proof -
  have "of_int 0 \<le> x * 10 ^ 4" "x * 10 ^ 4 \<le> of_int 10000" using assms by simp_all
  then have "0 \<le> round_half_even (x * 10 ^ 4) \<and> round_half_even (x * 10 ^ 4) \<le> 10000"
    by (rule round_half_even_range)
  then show ?thesis by simp
qed

lemma py_round_unit:
  assumes "0 \<le> x" and "x \<le> 1"
  shows "0 \<le> py_round x 4 \<and> py_round x 4 \<le> 1"
  unfolding py_round_def using decimal_unit [OF assms] by (intro to_double_unit) simp_all

lemma py_round_near:
  assumes "0 \<le> x" and "x \<le> 1"
  shows "\<bar>py_round x 4 - x\<bar> \<le> 1 / 20000 + 1 / 2 ^ 53"
proof -
  let ?d = "of_int (round_half_even (x * 10 ^ 4)) / (10 ^ 4 :: rat)"
  have "\<bar>of_int (round_half_even (x * 10 ^ 4)) - x * 10 ^ 4\<bar> \<le> 1 / 2"
    by (rule round_half_even_near)
  then have decimal: "\<bar>?d - x\<bar> \<le> 1 / 20000" by (simp add: abs_le_iff field_simps)
  have "0 \<le> ?d" "?d \<le> 1" using decimal_unit [OF assms] by simp_all
  then have "\<bar>to_double ?d - ?d\<bar> \<le> 1 / 2 ^ 53" by (rule to_double_near)
  then have "\<bar>to_double ?d - x\<bar> \<le> 1 / 20000 + 1 / 2 ^ 53" using decimal by linarith
  then show ?thesis by (simp only: py_round_def)
qed

lemma float_div_unit:
  assumes "0 \<le> s" and "s \<le> of_nat n" and "0 < n" and "to_double (of_nat n) = of_nat n"
  shows "0 \<le> float_div s n \<and> float_div s n \<le> 1"
proof -
  have "0 \<le> s / of_nat n" "s / of_nat n \<le> 1" using assms(1-3) by (simp_all add: divide_le_eq)
  then show ?thesis unfolding float_div_def assms(4) by (rule to_double_unit)
qed

text \<open>Every count up to \<open>2 ^ 53\<close> is a double.\<close>

lemma to_double_of_nat:
  assumes "n \<le> 2 ^ 53"
  shows "to_double (of_nat n) = of_nat n"
proof (cases "n = 0")
  case True
  then show ?thesis by (simp add: to_double_def)
next
  case False
  let ?x = "of_nat n :: rat"
  have x: "0 < ?x" using False by simp
  have one: "1 \<le> ?x" using False by (simp add: Suc_leI)
  have top: "?x \<le> 2 ^ 53" using assms by (metis of_nat_le_iff of_nat_numeral of_nat_power)
  let ?e = "ilog2 ?x"
  have e0: "0 \<le> ?e"
  proof (rule ccontr)
    assume "\<not> 0 \<le> ?e"
    then have "?e + 1 \<le> 0" by simp
    then have "(2::rat) powi (?e + 1) \<le> 2 powi 0" by (intro power_int_increasing) simp_all
    then show False using ilog2_bracket [OF x] one by simp
  qed
  have e53: "?e \<le> 53"
  proof (rule ccontr)
    assume "\<not> ?e \<le> 53"
    then have "54 \<le> ?e" by simp
    then have "(2::rat) powi 54 \<le> 2 powi ?e" by (intro power_int_increasing) simp_all
    then show False using ilog2_bracket [OF x] top by simp
  qed
  have u: "double_ulp ?x = 2 powi (?e - 52)" using e0 by (simp add: double_ulp_def max_def)
  have "\<exists>k::int. ?x / double_ulp ?x = of_int k"
  proof (cases "?e = 53")
    case True
    then have "(2::rat) ^ 53 \<le> ?x" using ilog2_bracket [OF x] by simp
    then have "?x = 2 ^ 53" using top by simp
    moreover have "double_ulp ?x = 2" using u True by simp
    ultimately have "?x / double_ulp ?x = of_int (2 ^ 52)" by simp
    then show ?thesis by blast
  next
    case False
    then have "0 \<le> 52 - ?e" using e53 by simp
    then obtain j where j: "52 - ?e = int j" using nonneg_int_cases by blast
    have "double_ulp ?x = 2 powi (- (52 - ?e))" using u by simp
    also have "\<dots> = 1 / 2 ^ j" unfolding j by (simp add: power_int_minus divide_inverse)
    finally have "?x / double_ulp ?x = ?x * 2 ^ j" by simp
    also have "\<dots> = of_int (int n * 2 ^ j)" by simp
    finally show ?thesis by blast
  qed
  then obtain k :: int where k: "?x / double_ulp ?x = of_int k" by blast
  have "to_double ?x = of_int (round_half_even (of_int k)) * double_ulp ?x"
    using x by (simp add: to_double_pos k)
  also have "\<dots> = of_int k * double_ulp ?x" by (simp only: round_half_even_of_int)
  also have "\<dots> = ?x / double_ulp ?x * double_ulp ?x" by (simp only: k)
  also have "\<dots> = ?x" using double_ulp_pos [of ?x] by simp
  finally show ?thesis .
qed

lemma foldl_to_double_bounded:
  assumes "\<forall>c\<in>set cs. 0 \<le> c \<and> c \<le> 1"
    and "\<forall>k\<le>j + length cs. to_double (of_nat k) = of_nat k"
    and "0 \<le> a" and "a \<le> of_nat j"
  shows "0 \<le> foldl (\<lambda>a c. to_double (a + c)) a cs
       \<and> foldl (\<lambda>a c. to_double (a + c)) a cs \<le> of_nat (j + length cs)"
  using assms
proof (induction cs arbitrary: a j)
  case Nil
  then show ?case by simp
next
  case (Cons c cs)
  have c: "0 \<le> c" "c \<le> 1" using Cons.prems(1) by simp_all
  have "0 \<le> a + c" "a + c \<le> of_nat (Suc j)" using c Cons.prems(3,4) by simp_all
  then have "0 \<le> to_double (a + c)" "to_double (a + c) \<le> to_double (of_nat (Suc j))"
    by (simp_all add: to_double_nonneg to_double_mono)
  moreover have "to_double (of_nat (Suc j)) = (of_nat (Suc j) :: rat)"
  proof -
    have "Suc j \<le> j + length (c # cs)" by simp
    then show ?thesis using Cons.prems(2) by blast
  qed
  ultimately have step: "0 \<le> to_double (a + c)" "to_double (a + c) \<le> of_nat (Suc j)"
    by simp_all
  have "\<forall>c\<in>set cs. 0 \<le> c \<and> c \<le> 1" using Cons.prems(1) by simp
  moreover have "\<forall>k\<le>Suc j + length cs. to_double (of_nat k) = (of_nat k :: rat)"
    using Cons.prems(2) by simp
  ultimately have "0 \<le> foldl (\<lambda>a c. to_double (a + c)) (to_double (a + c)) cs
       \<and> foldl (\<lambda>a c. to_double (a + c)) (to_double (a + c)) cs \<le> of_nat (Suc j + length cs)"
    using step by (rule Cons.IH)
  then show ?case by simp
qed

text \<open>The left-to-right sum of confidences lies between \<open>0\<close> and their number.\<close>

lemma float_sum_left_bounded:
  assumes "\<forall>c\<in>set cs. 0 \<le> c \<and> c \<le> 1" and "length cs \<le> 2 ^ 53"
  shows "0 \<le> float_sum_left cs \<and> float_sum_left cs \<le> of_nat (length cs)"
proof -
  have "\<forall>k\<le>0 + length cs. to_double (of_nat k) = (of_nat k :: rat)"
    using assms(2) by (auto intro: to_double_of_nat)
  then show ?thesis
    using foldl_to_double_bounded [of cs 0 0] assms(1) by (simp add: float_sum_left_def)
qed

lemma float_examples:
  "py_round (float_div (float_sum_left [31 / 32, 15 / 16]) 2) 4
     = 8584761609693639 / 9007199254740992
   \<and> py_round (float_div (float_sum_left [1 / 32]) 1) 4 = 4496393867966703 / 2 ^ 57
   \<and> py_round (float_div (float_sum_left [3 / 32, 3 / 32, 3 / 32 - 1 / 2 ^ 56]) 3) 4
     = to_double (938 / 10000)"
  by code_simp

subsection \<open>Recognized text and confidence\<close>

lemma newline_segments_line:
  "newline \<notin> set x \<Longrightarrow> newline_segments x = [x]"
  by (induction x) auto

lemma newline_segments_append:
  "newline \<notin> set x \<Longrightarrow> newline_segments (x @ newline # rest) = x # newline_segments rest"
  by (induction x) auto

lemma newline_segments_join:
  "xs \<noteq> [] \<Longrightarrow> \<forall>x\<in>set xs. newline \<notin> set x \<Longrightarrow> newline_segments (str_join [newline] xs) = xs"
  by (induction "[newline]" xs rule: str_join.induct)
     (simp_all add: newline_segments_line newline_segments_append)

text \<open>
  C5, as amended. When the backend detects at least one line on the page, the call returns
  the line texts joined by newlines in detection order, and as confidence the mean of the
  line confidences in float arithmetic (Python's \<^verbatim>\<open>sum\<close> divided by the number of lines),
  rounded by \<^verbatim>\<open>round\<close> to four decimal places. When the float sum lies between \<open>0\<close> and the
  number of lines, as the left-to-right sum of confidences in \<open>[0, 1]\<close> does, and there are
  at most \<open>2 ^ 53\<close> lines, the confidence is in \<open>[0, 1]\<close> and within \<open>0.00005 + 2 ^ -53\<close>
  of the float mean. The text has one newline-delimited segment per line when no line
  text contains a newline.
\<close>

theorem recognized_text_and_confidence:
  assumes "paddle_ocr img = Inr (Some lines # rest)" and "lines \<noteq> []"
  shows "\<exists>r. extract_text_with_paddleocr float_sum paddle_ocr img = Inr r
     \<and> confidence r
         = py_round (float_div (float_sum (map (\<lambda>l. snd (snd l)) lines)) (length lines)) 4
     \<and> text r = str_join [newline] (map (\<lambda>l. fst (snd l)) lines)
     \<and> (0 \<le> float_sum (map (\<lambda>l. snd (snd l)) lines)
          \<and> float_sum (map (\<lambda>l. snd (snd l)) lines) \<le> of_nat (length lines)
          \<and> length lines \<le> 2 ^ 53
          \<longrightarrow> 0 \<le> confidence r \<and> confidence r \<le> 1
            \<and> \<bar>confidence r - float_div (float_sum (map (\<lambda>l. snd (snd l)) lines)) (length lines)\<bar>
                \<le> 1 / 20000 + 1 / 2 ^ 53)
     \<and> ((\<forall>l\<in>set lines. newline \<notin> set (fst (snd l)))
          \<longrightarrow> newline_segments (text r) = map (\<lambda>l. fst (snd l)) lines
            \<and> length (newline_segments (text r)) = length lines)"
proof -
  let ?cs = "map (\<lambda>l. snd (snd l)) lines"
  let ?ts = "map (\<lambda>l. fst (snd l)) lines"
  let ?avg = "float_div (float_sum ?cs) (length lines)"
  let ?c = "py_round ?avg 4"
  let ?t = "str_join [newline] ?ts"
  let ?r = "\<lparr>text = ?t, confidence = ?c\<rparr>"
  obtain l ls where lines: "lines = l # ls" using assms(2) by (cases lines) auto
  have run: "extract_text_with_paddleocr float_sum paddle_ocr img = Inr ?r"
    using assms(1) unfolding lines by (simp add: extract_text_with_paddleocr_def Let_def)
  have sel: "confidence ?r = ?c" "text ?r = ?t" by simp_all
  have pos: "0 < length lines" using assms(2) by simp
  have unit: "0 \<le> ?c \<and> ?c \<le> 1 \<and> \<bar>?c - ?avg\<bar> \<le> 1 / 20000 + 1 / 2 ^ 53"
    if "0 \<le> float_sum ?cs \<and> float_sum ?cs \<le> of_nat (length lines)
          \<and> length lines \<le> 2 ^ 53"
  proof -
    have "to_double (of_nat (length lines)) = (of_nat (length lines) :: rat)"
      using that by (intro to_double_of_nat) simp
    then have "0 \<le> ?avg \<and> ?avg \<le> 1"
      using that pos by (intro float_div_unit) simp_all
    then show ?thesis using py_round_unit [of ?avg] py_round_near [of ?avg] by simp
  qed
  have segs: "newline_segments ?t = ?ts"
    if "\<forall>l\<in>set lines. newline \<notin> set (fst (snd l))"
  proof -
    have "?ts \<noteq> []" using assms(2) by simp
    moreover have "\<forall>x\<in>set ?ts. newline \<notin> set x" using that by simp
    ultimately show ?thesis by (rule newline_segments_join)
  qed
  show ?thesis
  proof (intro exI [of _ ?r] conjI impI)
    show "extract_text_with_paddleocr float_sum paddle_ocr img = Inr ?r" by (rule run)
    show "confidence ?r = ?c" by (rule sel)
    show "text ?r = ?t" by (rule sel)
  next
    assume "0 \<le> float_sum ?cs \<and> float_sum ?cs \<le> of_nat (length lines)
          \<and> length lines \<le> 2 ^ 53"
    from unit [OF this] show "0 \<le> confidence ?r" "confidence ?r \<le> 1"
      "\<bar>confidence ?r - ?avg\<bar> \<le> 1 / 20000 + 1 / 2 ^ 53"
      unfolding sel by blast+
  next
    assume "\<forall>l\<in>set lines. newline \<notin> set (fst (snd l))"
    from segs [OF this] show "newline_segments (text ?r) = ?ts"
      unfolding sel .
    then show "length (newline_segments (text ?r)) = length lines" by simp
  qed
qed

lemma ocr_two_lines_run:
  "extract_text_with_paddleocr float_sum_left ocr_two_lines 0
     = Inr \<lparr>text = ''INVOICE'' @ [newline] @ ''TOTAL'',
            confidence = py_round (float_div (float_sum_left [31 / 32, 15 / 16]) 2) 4\<rparr>"
  by (simp add: extract_text_with_paddleocr_def ocr_two_lines_def Let_def flip: numeral_2_eq_2)

lemma float_sum_two_lines: "float_sum_left [31 / 32, 15 / 16] = 61 / 32"
  by code_simp

text \<open>
  C5 as stated fails: for two lines with confidences \<open>31/32\<close> and \<open>15/16\<close> the sum and the
  mean are exact, the mean is \<open>0.953125\<close>, and the call returns the double nearest to
  \<open>0.9531\<close>.
\<close>

theorem mean_confidence_counterexample:
  "extract_text_with_paddleocr float_sum_left ocr_two_lines 0
     = Inr \<lparr>text = ''INVOICE'' @ [newline] @ ''TOTAL'',
            confidence = 8584761609693639 / 9007199254740992\<rparr>
   \<and> (8584761609693639 / 9007199254740992 :: rat) \<noteq> (31 / 32 + 15 / 16) / 2"
proof -
  have "py_round (float_div (float_sum_left [31 / 32, 15 / 16]) 2) 4
      = 8584761609693639 / 9007199254740992"
    by (rule float_examples [THEN conjunct1])
  then show ?thesis unfolding ocr_two_lines_run by simp
qed

theorem recognized_text_and_confidence_witness:
  "\<exists>r. extract_text_with_paddleocr float_sum_left ocr_two_lines 0 = Inr r
     \<and> confidence r = 8584761609693639 / 9007199254740992
     \<and> text r = ''INVOICE'' @ [newline] @ ''TOTAL''
     \<and> 0 \<le> confidence r \<and> confidence r \<le> 1
     \<and> length (newline_segments (text r)) = 2"
proof -
  let ?lines = "[([], (''INVOICE'', 31 / 32)), ([], (''TOTAL'', 15 / 16))] :: ocr_line list"
  have h1: "ocr_two_lines 0 = Inr (Some ?lines # [])" by (simp add: ocr_two_lines_def)
  have h2: "?lines \<noteq> []" by simp
  have len: "length ?lines = 2" by simp
  have scores: "map (\<lambda>l. snd (snd l)) ?lines = [31 / 32, 15 / 16]" by simp
  have h3: "0 \<le> float_sum_left (map (\<lambda>l. snd (snd l)) ?lines)
          \<and> float_sum_left (map (\<lambda>l. snd (snd l)) ?lines) \<le> of_nat (length ?lines)
          \<and> length ?lines \<le> 2 ^ 53"
    unfolding len scores float_sum_two_lines by simp
  have h4: "\<forall>l\<in>set ?lines. newline \<notin> set (fst (snd l))" by (simp add: newline_def)
  have conf: "py_round (float_div (float_sum_left (map (\<lambda>l. snd (snd l)) ?lines)) (length ?lines)) 4
      = 8584761609693639 / 9007199254740992"
    unfolding len scores by (rule float_examples [THEN conjunct1])
  have joined: "str_join [newline] (map (\<lambda>l. fst (snd l)) ?lines) = ''INVOICE'' @ [newline] @ ''TOTAL''"
    by simp
  from recognized_text_and_confidence [of ocr_two_lines 0 ?lines "[]" float_sum_left, OF h1 h2] h3 h4
  obtain r where run: "extract_text_with_paddleocr float_sum_left ocr_two_lines 0 = Inr r"
    and c: "confidence r
         = py_round (float_div (float_sum_left (map (\<lambda>l. snd (snd l)) ?lines)) (length ?lines)) 4"
    and t: "text r = str_join [newline] (map (\<lambda>l. fst (snd l)) ?lines)"
    and u: "0 \<le> confidence r \<and> confidence r \<le> 1"
    and n: "length (newline_segments (text r)) = length ?lines"
    by blast
  show ?thesis
  proof (intro exI [of _ r] conjI)
    show "extract_text_with_paddleocr float_sum_left ocr_two_lines 0 = Inr r" by (rule run)
    show "confidence r = 8584761609693639 / 9007199254740992" by (rule trans [OF c conf])
    show "text r = ''INVOICE'' @ [newline] @ ''TOTAL''" by (rule trans [OF t joined])
    show "0 \<le> confidence r" "confidence r \<le> 1" using u by blast+
    show "length (newline_segments (text r)) = 2" by (rule trans [OF n len])
  qed
qed

subsection \<open>Field extraction\<close>

lemma load_donut_model_generate:
  "load_donut_model (E\<lparr>generate := g\<rparr>) s = load_donut_model E s"
  by (simp add: load_donut_model_def split: prod.splits sum.splits)

lemma extract_try_state:
  "snd (extract_structured_with_donut_try E img f s) = snd (load_donut_model E s)"
  by (simp add: extract_structured_with_donut_try_def split: prod.splits sum.splits)

lemma extract_state:
  "snd (extract_structured_with_donut E img f s) = snd (load_donut_model E s)"
  using extract_try_state [of E img f s]
  by (auto simp: extract_structured_with_donut_def split: prod.splits sum.splits)

lemma extract_returns:
  "\<exists>v. extract_structured_with_donut E img f s = (Inr v, snd (load_donut_model E s))"
  using extract_try_state [of E img f s]
  by (auto simp: extract_structured_with_donut_def split: prod.splits sum.splits)

lemma extract_fields_loop_step:
  "extract_fields_loop E img (g # rest) r s =
     extract_fields_loop E img rest
       (AList.update g (projr (fst (extract_structured_with_donut E img g s))) r)
       (snd (load_donut_model E s))"
proof -
  from extract_returns [of E img g s]
  obtain v where "extract_structured_with_donut E img g s = (Inr v, snd (load_donut_model E s))" ..
  then show ?thesis by simp
qed

lemma extract_fields_loop_keys:
  "distinct fs \<Longrightarrow> set fs \<inter> set (map fst r) = {} \<Longrightarrow>
     map fst (fst (extract_fields_loop E img fs r s)) = map fst r @ fs"
proof (induction fs arbitrary: r s)
  case Nil
  then show ?case by simp
next
  case (Cons g rest)
  let ?r = "AList.update g (projr (fst (extract_structured_with_donut E img g s))) r"
  have keys: "map fst ?r = map fst r @ [g]"
    using Cons.prems(2) by (simp add: update_keys)
  have "distinct rest" using Cons.prems(1) by simp
  moreover have "set rest \<inter> set (map fst ?r) = {}"
    unfolding keys using Cons.prems by auto
  ultimately have "map fst (fst (extract_fields_loop E img rest ?r (snd (load_donut_model E s))))
      = map fst ?r @ rest"
    by (rule Cons.IH)
  then show ?case unfolding extract_fields_loop_step keys by simp
qed

lemma distinct_fields: "distinct fields"
  by (simp add: fields_def)

text \<open>
  C2. Whatever the outside calls do (succeed or raise, at any step of any field),
  \<^verbatim>\<open>extract_all_structured_fields\<close> returns, raises nothing, and the dictionary it returns
  has exactly the six keys, once each, in the order of the field list.
\<close>

theorem extract_all_six_keys:
  "\<exists>r s'. extract_all_structured_fields E img s = (Inr r, s')
     \<and> map fst r = [''product_name'', ''order_id'', ''invoice_number'', ''total_amount'',
                     ''purchase_date'', ''retailer'']
     \<and> distinct (map fst r)"
proof -
  obtain r s' where loop: "extract_fields_loop E img fields [] s = (r, s')"
    by (cases "extract_fields_loop E img fields [] s")
  have "map fst (fst (extract_fields_loop E img fields [] s)) = fields"
    using extract_fields_loop_keys [of fields "[]" E img s] by (simp add: distinct_fields)
  then have keys: "map fst r = fields" using loop by simp
  show ?thesis
  proof (intro exI conjI)
    show "extract_all_structured_fields E img s = (Inr r, s')"
      using loop by (simp add: extract_all_structured_fields_def)
    show "map fst r = [''product_name'', ''order_id'', ''invoice_number'', ''total_amount'',
                       ''purchase_date'', ''retailer'']"
      using keys by (simp only: fields_def)
    show "distinct (map fst r)" unfolding keys by (rule distinct_fields)
  qed
qed

text \<open>
  C10. \<^verbatim>\<open>extract_structured_with_donut\<close> never raises: it returns a string for every
  image, field name and state. The string is empty whenever anything inside the
  \<^verbatim>\<open>try\<close> block raised, be it the loading of the model or a step after it (the
  processor, the tokenizer, generation, decoding), and it is the value of the block
  otherwise.
\<close>

theorem extract_structured_with_donut_total:
  "\<exists>v s'. extract_structured_with_donut E img f s = (Inr v, s')
     \<and> (isl (fst (extract_structured_with_donut_try E img f s)) \<longrightarrow> v = [])
     \<and> (isl (fst (load_donut_model E s)) \<longrightarrow> v = [])
     \<and> (\<forall>p m s1. load_donut_model E s = (Inr (p, m), s1) \<longrightarrow> isl (donut_answer E p m img f)
           \<longrightarrow> v = [])
     \<and> (\<forall>a. fst (extract_structured_with_donut_try E img f s) = Inr a \<longrightarrow> v = a)"
  by (auto simp: extract_structured_with_donut_def extract_structured_with_donut_try_def
           split: prod.splits sum.splits)

lemma to_cuda_generate: "to_cuda (E\<lparr>generate := g\<rparr>) = to_cuda E"
  by (rule ext) (simp add: to_cuda_def)

lemma decoder_input_ids_generate:
  "decoder_input_ids (E\<lparr>generate := g\<rparr>) p f = decoder_input_ids E p f"
  by (simp add: decoder_input_ids_def to_cuda_generate)

lemma donut_answer_same:
  assumes "\<forall>px ids. decoder_input_ids E p f = Inr ids \<longrightarrow> gen' m p px ids = generate E m p px ids"
  shows "donut_answer (E\<lparr>generate := gen'\<rparr>) p m img f = donut_answer E p m img f"
  using assms
  by (simp add: donut_answer_def bind_exn_def decoder_input_ids_generate to_cuda_generate
           split: sum.splits list.splits)

lemma donut_answer_fail:
  assumes "\<forall>px ids. decoder_input_ids E p f = Inr ids \<longrightarrow> isl (gen' m p px ids)"
  shows "isl (donut_answer (E\<lparr>generate := gen'\<rparr>) p m img f)"
proof (cases "processor_call E p img")
  case (Inl e)
  then show ?thesis by (simp add: donut_answer_def bind_exn_def)
next
  case t: (Inr t)
  show ?thesis
  proof (cases "to_cuda E t")
    case (Inl e)
    then show ?thesis using t by (simp add: donut_answer_def bind_exn_def to_cuda_generate)
  next
    case px: (Inr px)
    show ?thesis
    proof (cases "decoder_input_ids E p f")
      case (Inl e)
      then show ?thesis
        using t px
        by (simp add: donut_answer_def bind_exn_def to_cuda_generate decoder_input_ids_generate)
    next
      case ids: (Inr ids)
      then have "isl (gen' m p px ids)" using assms by blast
      then obtain e where "gen' m p px ids = Inl e" by (auto simp: isl_def)
      then show ?thesis
        using t px ids
        by (simp add: donut_answer_def bind_exn_def to_cuda_generate decoder_input_ids_generate)
    qed
  qed
qed

lemma extract_same:
  assumes "\<forall>p m px ids. decoder_input_ids E p f = Inr ids \<longrightarrow> gen' m p px ids = generate E m p px ids"
  shows "extract_structured_with_donut (E\<lparr>generate := gen'\<rparr>) img f s
           = extract_structured_with_donut E img f s"
proof -
  have "donut_answer (E\<lparr>generate := gen'\<rparr>) p m img f = donut_answer E p m img f" for p m
    using assms by (intro donut_answer_same) blast
  then show ?thesis
    by (simp add: extract_structured_with_donut_def extract_structured_with_donut_try_def
          load_donut_model_generate split: prod.splits sum.splits)
qed

lemma extract_fail:
  assumes "\<forall>p m px ids. decoder_input_ids E p f = Inr ids \<longrightarrow> isl (gen' m p px ids)"
  shows "extract_structured_with_donut (E\<lparr>generate := gen'\<rparr>) img f s
           = (Inr [], snd (load_donut_model E s))"
proof -
  let ?E' = "E\<lparr>generate := gen'\<rparr>"
  obtain res s' where load: "load_donut_model E s = (res, s')"
    by (cases "load_donut_model E s")
  show ?thesis
  proof (cases res)
    case (Inl e)
    then show ?thesis
      using load
      by (simp add: extract_structured_with_donut_def extract_structured_with_donut_try_def
            load_donut_model_generate)
  next
    case (Inr pm)
    obtain p m where pm: "pm = (p, m)" by (cases pm)
    have "isl (donut_answer ?E' p m img f)"
      using assms by (intro donut_answer_fail) blast
    then obtain e where "donut_answer ?E' p m img f = Inl e"
      by (auto simp: isl_def)
    then show ?thesis
      using load Inr pm
      by (simp add: extract_structured_with_donut_def extract_structured_with_donut_try_def
            load_donut_model_generate)
  qed
qed

lemma extract_fields_loop_isolated:
  assumes fail: "\<forall>p m px ids. decoder_input_ids E p f = Inr ids \<longrightarrow> isl (gen' m p px ids)"
    and same: "\<forall>g\<in>set fs. g \<noteq> f \<longrightarrow>
                 (\<forall>p m px ids. decoder_input_ids E p g = Inr ids
                    \<longrightarrow> gen' m p px ids = generate E m p px ids)"
    and rr: "\<forall>k. k \<noteq> f \<longrightarrow> map_of r' k = map_of r k"
    and ff: "f \<in> set fs \<or> map_of r' f = Some []"
  shows "snd (extract_fields_loop (E\<lparr>generate := gen'\<rparr>) img fs r' s)
           = snd (extract_fields_loop E img fs r s)
     \<and> (\<forall>k. k \<noteq> f \<longrightarrow>
           map_of (fst (extract_fields_loop (E\<lparr>generate := gen'\<rparr>) img fs r' s)) k
             = map_of (fst (extract_fields_loop E img fs r s)) k)
     \<and> map_of (fst (extract_fields_loop (E\<lparr>generate := gen'\<rparr>) img fs r' s)) f = Some []"
  using same rr ff
proof (induction fs arbitrary: r r' s)
  case Nil
  then show ?case by simp
next
  case (Cons g rest)
  let ?E' = "E\<lparr>generate := gen'\<rparr>"
  let ?v' = "projr (fst (extract_structured_with_donut ?E' img g s))"
  let ?v = "projr (fst (extract_structured_with_donut E img g s))"
  let ?s = "snd (load_donut_model E s)"
  have same_rest: "\<forall>h\<in>set rest. h \<noteq> f \<longrightarrow>
      (\<forall>p m px ids. decoder_input_ids E p h = Inr ids \<longrightarrow> gen' m p px ids = generate E m p px ids)"
    using Cons.prems(1) by simp
  have rr': "\<forall>k. k \<noteq> f \<longrightarrow> map_of (AList.update g ?v' r') k = map_of (AList.update g ?v r) k"
  proof (cases "g = f")
    case True
    then show ?thesis using Cons.prems(2) by (simp add: update_conv')
  next
    case False
    then have "\<forall>p m px ids. decoder_input_ids E p g = Inr ids \<longrightarrow> gen' m p px ids = generate E m p px ids"
      using Cons.prems(1) by simp
    then have "extract_structured_with_donut ?E' img g s = extract_structured_with_donut E img g s"
      by (rule extract_same)
    then show ?thesis using Cons.prems(2) by (simp add: update_conv')
  qed
  have ff': "f \<in> set rest \<or> map_of (AList.update g ?v' r') f = Some []"
  proof (cases "g = f")
    case True
    then have "?v' = []" using extract_fail [OF fail, of img s] by simp
    then show ?thesis using True by (simp add: update_conv')
  next
    case False
    then show ?thesis using Cons.prems(3) by (auto simp: update_conv')
  qed
  have step': "extract_fields_loop ?E' img (g # rest) r' s
      = extract_fields_loop ?E' img rest (AList.update g ?v' r') ?s"
    by (simp only: extract_fields_loop_step load_donut_model_generate)
  have step: "extract_fields_loop E img (g # rest) r s
      = extract_fields_loop E img rest (AList.update g ?v r) ?s"
    by (rule extract_fields_loop_step)
  show ?case unfolding step' step by (rule Cons.IH [OF same_rest rr' ff'])
qed

text \<open>
  C1. Let generation be replaced by one that raises on the decoder seed of the field \<open>f\<close>
  and answers as before on the seeds of the other five fields. Then
  \<^verbatim>\<open>extract_all_structured_fields\<close> still returns all six keys, the value of \<open>f\<close> is the
  empty string, the value of every other field is the one of the run without the failure,
  and both runs leave the same state.
\<close>

theorem per_field_failure_isolation:
  assumes "f \<in> set fields"
    and "\<forall>p m px ids. decoder_input_ids E p f = Inr ids \<longrightarrow> isl (gen' m p px ids)"
    and "\<forall>g\<in>set fields. g \<noteq> f \<longrightarrow>
           (\<forall>p m px ids. decoder_input_ids E p g = Inr ids
              \<longrightarrow> gen' m p px ids = generate E m p px ids)"
  shows "\<exists>r r' s'.
       extract_all_structured_fields E img s = (Inr r, s')
     \<and> extract_all_structured_fields (E\<lparr>generate := gen'\<rparr>) img s = (Inr r', s')
     \<and> map_of r' f = Some []
     \<and> (\<forall>g. g \<noteq> f \<longrightarrow> map_of r' g = map_of r g)
     \<and> map fst r' = fields"
proof -
  let ?E' = "E\<lparr>generate := gen'\<rparr>"
  obtain r s1 where run: "extract_fields_loop E img fields [] s = (r, s1)"
    by (cases "extract_fields_loop E img fields [] s")
  obtain r' s2 where run': "extract_fields_loop ?E' img fields [] s = (r', s2)"
    by (cases "extract_fields_loop ?E' img fields [] s")
  have "\<forall>k. k \<noteq> f \<longrightarrow> map_of ([] :: (string \<times> string) list) k = map_of ([] :: (string \<times> string) list) k"
    by simp
  moreover have "f \<in> set fields \<or> map_of ([] :: (string \<times> string) list) f = Some []"
    using assms(1) by simp
  ultimately have iso:
    "snd (extract_fields_loop ?E' img fields [] s) = snd (extract_fields_loop E img fields [] s)
     \<and> (\<forall>k. k \<noteq> f \<longrightarrow>
           map_of (fst (extract_fields_loop ?E' img fields [] s)) k
             = map_of (fst (extract_fields_loop E img fields [] s)) k)
     \<and> map_of (fst (extract_fields_loop ?E' img fields [] s)) f = Some []"
    by (rule extract_fields_loop_isolated [OF assms(2) assms(3)])
  have keys: "map fst (fst (extract_fields_loop ?E' img fields [] s)) = fields"
    using extract_fields_loop_keys [of fields "[]" ?E' img s] by (simp add: distinct_fields)
  show ?thesis
  proof (intro exI conjI)
    show "extract_all_structured_fields E img s = (Inr r, s1)"
      using run by (simp add: extract_all_structured_fields_def)
    show "extract_all_structured_fields ?E' img s = (Inr r', s1)"
      using run' run iso by (simp add: extract_all_structured_fields_def)
    show "map_of r' f = Some []" using iso run' by simp
    show "\<forall>g. g \<noteq> f \<longrightarrow> map_of r' g = map_of r g" using iso run run' by simp
    show "map fst r' = fields" using keys run' by simp
  qed
qed

subsection \<open>Failure to load the model\<close>

lemma load_failure_keeps_model_unset:
  assumes "donut_model s = None"
    and "(\<forall>w. isl (fst (processor_from_pretrained E donut_name w)))
       \<or> (\<forall>w. isl (fst (model_from_pretrained E donut_name w)))"
  shows "\<exists>e s'. load_donut_model E s = (Inl e, s') \<and> donut_model s' = None"
proof -
  obtain r1 w1 where p: "processor_from_pretrained E donut_name (world s) = (r1, w1)"
    by (cases "processor_from_pretrained E donut_name (world s)")
  show ?thesis
  proof (cases r1)
    case (Inl e)
    then show ?thesis using assms(1) p by (simp add: load_donut_model_def)
  next
    case (Inr proc)
    obtain r2 w2 where m: "model_from_pretrained E donut_name w1 = (r2, w2)"
      by (cases "model_from_pretrained E donut_name w1")
    have "\<not> isl (fst (processor_from_pretrained E donut_name (world s)))"
      using p Inr by simp
    then have "isl (fst (model_from_pretrained E donut_name w1))"
      using assms(2) by blast
    then obtain e where "r2 = Inl e" using m by (auto simp: isl_def)
    then show ?thesis using assms(1) p Inr m by (simp add: load_donut_model_def)
  qed
qed

lemma load_constructs_when_unset:
  assumes "donut_model s = None"
    and "processor_from_pretrained E donut_name (world s) = (Inr p, w1)"
    and "model_from_pretrained E donut_name w1 = (Inr m, w2)"
    and "cuda_is_available E \<longrightarrow> fst (model_to E m ''cuda'' w2) = Inr ()"
  shows "fst (load_donut_model E s) = Inr (p, m)"
  using assms
  by (auto simp: load_donut_model_def split: prod.splits sum.splits)

lemma extract_empty_on_load_failure:
  assumes "donut_model s = None"
    and "(\<forall>w. isl (fst (processor_from_pretrained E donut_name w)))
       \<or> (\<forall>w. isl (fst (model_from_pretrained E donut_name w)))"
  shows "\<exists>s'. extract_structured_with_donut E img f s = (Inr [], s') \<and> donut_model s' = None"
proof -
  from load_failure_keeps_model_unset [OF assms]
  obtain e s' where "load_donut_model E s = (Inl e, s')" and "donut_model s' = None" by blast
  then show ?thesis
    by (simp add: extract_structured_with_donut_def extract_structured_with_donut_try_def)
qed

lemma extract_fields_loop_all_empty:
  assumes "(\<forall>w. isl (fst (processor_from_pretrained E donut_name w)))
       \<or> (\<forall>w. isl (fst (model_from_pretrained E donut_name w)))"
  shows "donut_model s = None \<Longrightarrow>
     \<exists>s'. extract_fields_loop E img fs r s = (foldl (\<lambda>acc f. AList.update f [] acc) r fs, s')
        \<and> donut_model s' = None"
proof (induction fs arbitrary: r s)
  case Nil
  then show ?case by simp
next
  case (Cons g rest)
  from extract_empty_on_load_failure [OF Cons.prems assms]
  obtain s1 where e: "extract_structured_with_donut E img g s = (Inr [], s1)"
    and s1: "donut_model s1 = None" by blast
  from Cons.IH [OF s1] show ?case using e by simp
qed


lemma fields_all_empty: "foldl (\<lambda>acc f. AList.update f [] acc) [] fields = all_empty"
  by (simp add: fields_def all_empty_def)

text \<open>
  C3, as amended. When each attempt to construct the processor or the model raises, a
  request whose file gives an image does not fail: every field extraction catches the
  error, and the request returns the six keys, each with the empty string. The model stays
  unset, so the failure is not kept: the next call of \<^verbatim>\<open>load_donut_model\<close>, in this
  request or a later one, constructs again, and returns the new handles when the
  construction succeeds.
\<close>

theorem model_load_failure_gives_empty_fields:
  fixes E :: "('img, 'proc, 'mdl, 'tensor, 'w) env"
  assumes "file_to_image E file = Inr (Some img)"
    and "donut_model s = None"
    and "(\<forall>w. isl (fst (processor_from_pretrained E donut_name w)))
       \<or> (\<forall>w. isl (fst (model_from_pretrained E donut_name w)))"
  shows "\<exists>s'. ai_structured_extract E file s
               = (Inr [(''product_name'', []), (''order_id'', []), (''invoice_number'', []),
                       (''total_amount'', []), (''purchase_date'', []), (''retailer'', [])], s')
     \<and> donut_model s' = None
     \<and> (\<forall>E2 p m w1 w2.
           processor_from_pretrained E2 donut_name (world s') = (Inr p, w1)
           \<longrightarrow> model_from_pretrained E2 donut_name w1 = (Inr m, w2)
           \<longrightarrow> (cuda_is_available E2 \<longrightarrow> fst (model_to E2 m ''cuda'' w2) = Inr ())
           \<longrightarrow> fst (load_donut_model (E2 :: ('img, 'proc, 'mdl, 'tensor, 'w) env) s') = Inr (p, m))"
proof -
  from extract_fields_loop_all_empty [OF assms(3) assms(2), of img fields "[]"]
  obtain s' where loop: "extract_fields_loop E img fields [] s = (all_empty, s')"
    and unset: "donut_model s' = None"
    unfolding fields_all_empty by blast
  have "ai_structured_extract E file s = (Inr all_empty, s')"
    using assms(1) loop
    by (simp add: ai_structured_extract_def ai_structured_extract_try_def
          extract_all_structured_fields_def)
  moreover have "fst (load_donut_model E2 s') = Inr (p, m)"
    if "processor_from_pretrained E2 donut_name (world s') = (Inr p, w1)"
      and "model_from_pretrained E2 donut_name w1 = (Inr m, w2)"
      and "cuda_is_available E2 \<longrightarrow> fst (model_to E2 m ''cuda'' w2) = Inr ()"
    for E2 :: "('img, 'proc, 'mdl, 'tensor, 'w) env" and p m w1 w2
    using unset that by (rule load_constructs_when_unset)
  ultimately show ?thesis using unset unfolding all_empty_def by blast
qed

text \<open>
  C3 as stated fails: with the artifact unavailable, \<^verbatim>\<open>load_donut_model\<close> raises, and the
  request for an image file returns the six keys with empty values, after six attempts
  at construction, one for each field.
\<close>

theorem model_load_failure_counterexample:
  "load_donut_model offline_env fresh
     = (Inl (PyException ''artifact unavailable''),
        \<lparr>donut_processor = None, donut_model = None, world = 1\<rparr>)
   \<and> ai_structured_extract offline_env png_file fresh
     = (Inr [(''product_name'', []), (''order_id'', []), (''invoice_number'', []),
             (''total_amount'', []), (''purchase_date'', []), (''retailer'', [])],
        \<lparr>donut_processor = None, donut_model = None, world = 6\<rparr>)"
  by code_simp


theorem model_load_failure_gives_empty_fields_witness:
  "\<exists>s'. ai_structured_extract offline_env png_file fresh
               = (Inr [(''product_name'', []), (''order_id'', []), (''invoice_number'', []),
                       (''total_amount'', []), (''purchase_date'', []), (''retailer'', [])], s')
     \<and> donut_model s' = None
     \<and> fst (load_donut_model demo_env s') = Inr (1, 2)"
proof -
  have h1: "file_to_image offline_env png_file = Inr (Some 7)" by code_simp
  have h2: "donut_model fresh = None" by (simp add: fresh_def)
  have h3: "(\<forall>w. isl (fst (processor_from_pretrained offline_env donut_name w)))
       \<or> (\<forall>w. isl (fst (model_from_pretrained offline_env donut_name w)))"
    by (simp add: offline_env_def)
  from model_load_failure_gives_empty_fields [OF h1 h2 h3]
  obtain s' where run: "ai_structured_extract offline_env png_file fresh
               = (Inr [(''product_name'', []), (''order_id'', []), (''invoice_number'', []),
                       (''total_amount'', []), (''purchase_date'', []), (''retailer'', [])], s')"
    and unset: "donut_model s' = None"
    and retry: "\<forall>(E2 :: (nat, nat, nat, string, nat) env) p m w1 w2.
           processor_from_pretrained E2 donut_name (world s') = (Inr p, w1)
           \<longrightarrow> model_from_pretrained E2 donut_name w1 = (Inr m, w2)
           \<longrightarrow> (cuda_is_available E2 \<longrightarrow> fst (model_to E2 m ''cuda'' w2) = Inr ())
           \<longrightarrow> fst (load_donut_model E2 s') = Inr (p, m)"
    by (elim exE conjE)
  have "processor_from_pretrained demo_env donut_name (world s') = (Inr 1, Suc (world s'))"
    by (simp add: demo_env_def)
  moreover have "model_from_pretrained demo_env donut_name (Suc (world s'))
      = (Inr 2, Suc (Suc (world s')))"
    by (simp add: demo_env_def)
  moreover have "cuda_is_available demo_env
      \<longrightarrow> fst (model_to demo_env 2 ''cuda'' (Suc (Suc (world s')))) = Inr ()"
    by (simp add: demo_env_def)
  ultimately have "fst (load_donut_model demo_env s') = Inr (1, 2)"
    using retry by blast
  then show ?thesis using run unset by (intro exI [of _ s']) simp
qed

subsection \<open>Rasterization of a PDF\<close>

lemma extract_all_returns:
  "\<exists>r s'. extract_all_structured_fields E img s = (Inr r, s')"
  by (simp add: extract_all_structured_fields_def split: prod.splits)

text \<open>
  C6. For a file declared as PDF, the conversion is asked for page 1 only, at 300 DPI.
  When it raises (the bytes are no PDF), the request fails with that error; when it
  gives no page, \<^verbatim>\<open>convert_pdf_to_image\<close> gives \<^verbatim>\<open>None\<close> and the request fails with
  "Failed to process file"; in both cases no field is extracted and the state is
  untouched. When it gives pages, the first one is the image the fields are read from.
\<close>

theorem pdf_rasterization:
  assumes "content_type file = ''application/pdf''"
  shows "(convert_from_bytes E (file_bytes file) 300 1 1 = Inl e
            \<longrightarrow> file_to_image E file = Inl e
              \<and> ai_structured_extract E file s = (Inl (HTTPException 500 (exn_str E e)), s))
     \<and> (convert_from_bytes E (file_bytes file) 300 1 1 = Inr []
            \<longrightarrow> file_to_image E file = Inr None
              \<and> ai_structured_extract E file s
                  = (Inl (HTTPException 500
                       (exn_str E (HTTPException 400 ''Failed to process file''))), s))
     \<and> (convert_from_bytes E (file_bytes file) 300 1 1 = Inr (page # rest)
            \<longrightarrow> file_to_image E file = Inr (Some page)
              \<and> ai_structured_extract E file s = extract_all_structured_fields E page s)"
proof (intro conjI impI)
  assume "convert_from_bytes E (file_bytes file) 300 1 1 = Inl e"
  then show "file_to_image E file = Inl e"
    and "ai_structured_extract E file s = (Inl (HTTPException 500 (exn_str E e)), s)"
    using assms
    by (simp_all add: ai_structured_extract_def ai_structured_extract_try_def file_to_image_def
          convert_pdf_to_image_def)
next
  assume "convert_from_bytes E (file_bytes file) 300 1 1 = Inr []"
  then show "file_to_image E file = Inr None"
    and "ai_structured_extract E file s
           = (Inl (HTTPException 500
                (exn_str E (HTTPException 400 ''Failed to process file''))), s)"
    using assms
    by (simp_all add: ai_structured_extract_def ai_structured_extract_try_def file_to_image_def
          convert_pdf_to_image_def)
next
  assume pages: "convert_from_bytes E (file_bytes file) 300 1 1 = Inr (page # rest)"
  then show img: "file_to_image E file = Inr (Some page)"
    using assms by (simp add: file_to_image_def convert_pdf_to_image_def)
  from extract_all_returns [of E page s]
  obtain r s' where "extract_all_structured_fields E page s = (Inr r, s')" by blast
  then show "ai_structured_extract E file s = extract_all_structured_fields E page s"
    using img by (simp add: ai_structured_extract_def ai_structured_extract_try_def)
qed

theorem pdf_rasterization_witness:
  "ai_structured_extract bad_pdf_env pdf_file fresh
     = (Inl (HTTPException 500 ''Unable to get page count''), fresh)
   \<and> ai_structured_extract empty_pdf_env pdf_file fresh
     = (Inl (HTTPException 500 ''Failed to process file''), fresh)
   \<and> file_to_image demo_env pdf_file = Inr (Some 7)
   \<and> ai_structured_extract demo_env pdf_file fresh = extract_all_structured_fields demo_env 7 fresh"
proof -
  have pdf: "content_type pdf_file = ''application/pdf''" by (simp add: pdf_file_def)
  have bad: "convert_from_bytes bad_pdf_env (file_bytes pdf_file) 300 1 1
      = Inl (PyException ''Unable to get page count'')"
    by (simp add: bad_pdf_env_def)
  have empty: "convert_from_bytes empty_pdf_env (file_bytes pdf_file) 300 1 1 = Inr []"
    by (simp add: empty_pdf_env_def)
  have two: "convert_from_bytes demo_env (file_bytes pdf_file) 300 1 1 = Inr (7 # [])"
    by (simp add: demo_env_def)
  have s1: "exn_str bad_pdf_env (PyException ''Unable to get page count'') = ''Unable to get page count''"
    by (simp add: bad_pdf_env_def demo_env_def)
  have s2: "exn_str empty_pdf_env (HTTPException 400 ''Failed to process file'') = ''Failed to process file''"
    by (simp add: empty_pdf_env_def demo_env_def)
  show ?thesis
    using pdf_rasterization [OF pdf, of bad_pdf_env "PyException ''Unable to get page count''" fresh 7 "[]"]
      pdf_rasterization [OF pdf, of empty_pdf_env "PyException ''x''" fresh 7 "[]"]
      pdf_rasterization [OF pdf, of demo_env "PyException ''x''" fresh 7 "[]"]
      bad empty two s1 s2
    by simp
qed

subsection \<open>Concrete runs\<close>

theorem extract_all_six_keys_witness:
  "\<exists>r s'. extract_all_structured_fields offline_env 7 fresh = (Inr r, s')
     \<and> map fst r = [''product_name'', ''order_id'', ''invoice_number'', ''total_amount'',
                     ''purchase_date'', ''retailer'']"
  using extract_all_six_keys [of offline_env 7 fresh]
  by (elim exE conjE) (intro exI conjI; assumption)

theorem extract_structured_with_donut_total_witness:
  "fst (extract_structured_with_donut (demo_env\<lparr>generate := generate_failing_order_id\<rparr>) 7
          ''order_id'' fresh) = Inr []
   \<and> fst (extract_structured_with_donut offline_env 7 ''order_id'' fresh) = Inr []"
proof -
  let ?E = "demo_env\<lparr>generate := generate_failing_order_id\<rparr>"
  have "isl (fst (extract_structured_with_donut_try ?E 7 ''order_id'' fresh))"
    by code_simp
  moreover have "isl (fst (load_donut_model offline_env fresh))"
    by code_simp
  ultimately show ?thesis
    using extract_structured_with_donut_total [of ?E 7 "''order_id''" fresh]
      extract_structured_with_donut_total [of offline_env 7 "''order_id''" fresh]
    by auto
qed

theorem per_field_failure_isolation_witness:
  "\<exists>r r' s'.
       extract_all_structured_fields demo_env 7 fresh = (Inr r, s')
     \<and> extract_all_structured_fields (demo_env\<lparr>generate := generate_failing_order_id\<rparr>) 7 fresh
         = (Inr r', s')
     \<and> map_of r ''order_id'' = Some returned_order_id
     \<and> map_of r' ''order_id'' = Some []
     \<and> map_of r' ''retailer'' = map_of r ''retailer''
     \<and> map_of r' ''product_name'' = map_of r ''product_name''
     \<and> map fst r' = fields"
proof -
  have h1: "''order_id'' \<in> set fields" by (simp add: fields_def)
  have h2: "\<forall>p m px ids. decoder_input_ids demo_env p ''order_id'' = Inr ids
              \<longrightarrow> isl (generate_failing_order_id m p px ids)"
    by (simp add: decoder_input_ids_def demo_env_def bind_exn_def to_cuda_def prompt_for_def
          prompt_map_def generate_failing_order_id_def)
  have h3: "\<forall>g\<in>set fields. g \<noteq> ''order_id'' \<longrightarrow>
           (\<forall>p m px ids. decoder_input_ids demo_env p g = Inr ids
              \<longrightarrow> generate_failing_order_id m p px ids = generate demo_env m p px ids)"
    by (simp add: fields_def decoder_input_ids_def demo_env_def bind_exn_def to_cuda_def
          prompt_for_def prompt_map_def generate_failing_order_id_def)
  from per_field_failure_isolation [OF h1 h2 h3, of 7 fresh]
  obtain r r' s' where run: "extract_all_structured_fields demo_env 7 fresh = (Inr r, s')"
    and run': "extract_all_structured_fields (demo_env\<lparr>generate := generate_failing_order_id\<rparr>) 7 fresh
         = (Inr r', s')"
    and failed: "map_of r' ''order_id'' = Some []"
    and others: "\<forall>g. g \<noteq> ''order_id'' \<longrightarrow> map_of r' g = map_of r g"
    and keys: "map fst r' = fields"
    by (elim exE conjE)
  have "map_of (projr (fst (extract_all_structured_fields demo_env 7 fresh))) ''order_id''
      = Some returned_order_id"
    by code_simp
  then have before: "map_of r ''order_id'' = Some returned_order_id" using run by simp
  have "map_of r' ''retailer'' = map_of r ''retailer''"
    and "map_of r' ''product_name'' = map_of r ''product_name''"
    using others by simp_all
  then show ?thesis using run run' failed before keys by (intro exI [of _ r] exI [of _ r'] exI [of _ s']) simp
qed

lemma load_donut_model_again:
  assumes "load_donut_model E s = (Inr (p, m), s')"
  shows "load_donut_model E2 s' = (Inr (p, m), s')"
  using assms
  by (auto simp: load_donut_model_def split: if_splits prod.splits sum.splits)

text \<open>
  C7 at an input where it fails: a GPU is there and moving the model to it raises. The
  first call raises with both globals assigned already, so the second call constructs
  nothing (the world is as it was) and returns the handles of the failed attempt. When it
  is the construction of the processor that raises, nothing is assigned and the second
  call constructs again.
\<close>

theorem device_move_failure_is_kept:
  "load_donut_model gpu_oom_env fresh
     = (Inl (PyException ''CUDA out of memory''),
        \<lparr>donut_processor = Some 1, donut_model = Some 2, world = 3\<rparr>)
   \<and> load_donut_model gpu_oom_env \<lparr>donut_processor = Some 1, donut_model = Some 2, world = 3\<rparr>
     = (Inr (1, 2), \<lparr>donut_processor = Some 1, donut_model = Some 2, world = 3\<rparr>)
   \<and> load_donut_model offline_env fresh
     = (Inl (PyException ''artifact unavailable''),
        \<lparr>donut_processor = None, donut_model = None, world = 1\<rparr>)
   \<and> load_donut_model offline_env \<lparr>donut_processor = None, donut_model = None, world = 1\<rparr>
     = (Inl (PyException ''artifact unavailable''),
        \<lparr>donut_processor = None, donut_model = None, world = 2\<rparr>)"
  by code_simp

subsection \<open>Cleaning of the decoded sequence\<close>

text \<open>What \<^verbatim>\<open>strip\<close> leaves has no whitespace at either end.\<close>

lemma str_strip_ends:
  assumes "str_strip s \<noteq> []"
  shows "\<not> py_isspace (hd (str_strip s)) \<and> \<not> py_isspace (last (str_strip s))"
proof -
  let ?ys = "dropWhile py_isspace s"
  let ?zs = "dropWhile py_isspace (rev ?ys)"
  have zs: "?zs \<noteq> []" using assms by (simp add: str_strip_def)
  then have "\<not> py_isspace (hd ?zs)" by (rule hd_dropWhile)
  then have last: "\<not> py_isspace (last (str_strip s))"
    using zs by (simp add: str_strip_def last_rev)
  have ys: "?ys \<noteq> []"
  proof
    assume empty: "?ys = []"
    have "?zs = []" unfolding empty by simp
    then show False using zs by (simp only:)
  qed
  then have first: "\<not> py_isspace (hd ?ys)" by (rule hd_dropWhile)
  have "rev ?ys = takeWhile py_isspace (rev ?ys) @ ?zs" by simp
  then have "last (rev ?ys) = last ?zs" using zs by (metis last_appendR)
  then have "hd ?ys = last ?zs" using ys by (simp add: last_rev)
  then have "hd (str_strip s) = hd ?ys" using zs by (simp add: str_strip_def hd_rev)
  then show ?thesis using first last by simp
qed

text \<open>
  C8 at an input where it fails: the decoded sequence starts with the task tag and the
  question, as the sequences that \<^verbatim>\<open>generate\<close> returns do. The end marker is removed, the
  first tag, which is removed, is the task tag, and the value that is returned still holds
  the question and the answer tag. A sequence that starts with the answer tag is cleaned
  to the bare answer.
\<close>

theorem answer_tag_survives_cleaning:
  "clean_sequence ''</s>'' ''<pad>'' decoded_order_id = returned_order_id
   \<and> str_contains ''<s_answer>'' returned_order_id
   \<and> fst (extract_structured_with_donut demo_env 7 ''order_id'' fresh) = Inr returned_order_id
   \<and> clean_sequence ''</s>'' ''<pad>'' ''<s_answer> 42</s><pad>'' = ''42''"
  by code_simp

end
